theory Spec2Isabelle
  imports Main
begin

section \<open>Data model of the feature module\<close>

text \<open>
  Exceptions are values.  \<open>RuntimeError msg cause\<close> carries the exception it was raised
  \<open>from\<close> (its \<open>__cause__\<close>); \<open>Exception\<close> stands for any other failure that the
  processing step may raise.
\<close>

datatype exn =
    ValueError string
  | KeyError string
  | TypeError string
  | RuntimeError string "exn option"
  | Exception string

text \<open>
  An input is a Python \<open>Dict[str, Any]\<close>: a partial map from keys to values of an
  arbitrary value type \<open>'v\<close>.
\<close>

type_synonym 'v pydict = "string \<rightharpoonup> 'v"

text \<open>The dictionary built by \<open>_execute_processing\<close>, with its four keys.\<close>

record 'v result =
  success :: bool
  data :: 'v
  processed_at :: string
  r_config :: "(string \<times> 'v) list"

text \<open>The dataclass \<open>FeatureConfig\<close>; \<open>max_retries\<close> is a Python \<open>int\<close> and may be negative.\<close>

record 'v FeatureConfig =
  max_retries :: int
  timeout :: int
  cache_enabled :: bool
  metadata :: "(string \<times> 'v) list"

definition FeatureConfig_default :: "'v FeatureConfig" where
  "FeatureConfig_default =
     \<lparr>max_retries = 3, timeout = 30, cache_enabled = True, metadata = []\<rparr>"

text \<open>The counters kept in \<open>self._metrics\<close>.\<close>

record metrics =
  processed :: int
  failed :: int
  cache_hits :: int

text \<open>
  A \<open>FeatureProcessor\<close> object: its configuration, its cache and its counters.  Two
  further fields observe what the object does and never influence it: \<open>calls\<close> counts the
  invocations of \<open>_execute_processing\<close>, and \<open>backoffs\<close> lists the arguments of the
  \<open>asyncio.sleep\<close> calls of the retry loop in the order they were made.  Calls of the
  module's logger change neither the object nor the control flow and are left out.
\<close>

record 'v FeatureProcessor =
  config :: "'v FeatureConfig"
  cache :: "string \<rightharpoonup> 'v result"
  metrics :: metrics
  calls :: nat
  backoffs :: "nat list"

text \<open>\<open>FeatureProcessor.__init__\<close>, given a configuration.\<close>

definition FeatureProcessor_init :: "'v FeatureConfig \<Rightarrow> 'v FeatureProcessor" where
  "FeatureProcessor_init cfg =
     \<lparr>config = cfg, cache = Map.empty,
      metrics = \<lparr>processed = 0, failed = 0, cache_hits = 0\<rparr>,
      calls = 0, backoffs = []\<rparr>"

section \<open>Formatting of integers\<close>

fun str_nat :: "nat \<Rightarrow> string" where
  "str_nat n =
     (if n < 10 then [''0123456789'' ! n]
      else str_nat (n div 10) @ [''0123456789'' ! (n mod 10)])"

definition str_int :: "int \<Rightarrow> string" where
  "str_int i = (if i < 0 then CHR ''-'' # str_nat (nat (- i)) else str_nat (nat i))"

section \<open>The processor\<close>

text \<open>\<open>FeatureProcessor.validate\<close>: every required field is a key of the input.\<close>

definition required_fields :: "string list" where
  "required_fields = [''id'', ''timestamp'', ''payload'']"

definition validate :: "'v pydict \<Rightarrow> bool" where
  "validate d = list_all (\<lambda>field. d field \<noteq> None) required_fields"

text \<open>
  The cache key \<open>f"{data['id']}:{data['timestamp']}"\<close>.  The formatting of an arbitrary
  Python value is a parameter \<open>fmt\<close>; a missing key raises \<open>KeyError\<close>.
\<close>

definition cache_key :: "('v \<Rightarrow> string) \<Rightarrow> 'v pydict \<Rightarrow> exn + string" where
  "cache_key fmt d =
     (case d ''id'' of
        None \<Rightarrow> Inl (KeyError ''id'')
      | Some i \<Rightarrow>
          (case d ''timestamp'' of
             None \<Rightarrow> Inl (KeyError ''timestamp'')
           | Some t \<Rightarrow> Inr (fmt i @ '':'' @ fmt t)))"

text \<open>
  The processing step is the method \<open>_execute_processing\<close>.  The retry loop is written
  for any such step \<open>exec\<close>: \<open>exec n d\<close> is the outcome of the invocation number \<open>n\<close>
  (counted from 0 over the life of the processor) on the input \<open>d\<close>.
\<close>

type_synonym 'v executor = "nat \<Rightarrow> 'v pydict \<Rightarrow> exn + 'v result"

text \<open>
  The method of the source: it reads the payload, the clock and the metadata, and never
  fails on an input that has a payload.  \<open>now n\<close> is
  \<open>datetime.utcnow().isoformat()\<close> as read by invocation \<open>n\<close>.
\<close>

definition execute_processing ::
  "(nat \<Rightarrow> string) \<Rightarrow> 'v FeatureConfig \<Rightarrow> 'v executor" where
  "execute_processing now cfg n d =
     (case d ''payload'' of
        None \<Rightarrow> Inl (KeyError ''payload'')
      | Some v \<Rightarrow>
          Inr \<lparr>success = True, data = v, processed_at = now n, r_config = metadata cfg\<rparr>)"

definition bump_processed :: "metrics \<Rightarrow> metrics" where
  "bump_processed m = m\<lparr>processed := processed m + 1\<rparr>"

definition bump_failed :: "metrics \<Rightarrow> metrics" where
  "bump_failed m = m\<lparr>failed := failed m + 1\<rparr>"

definition bump_cache_hits :: "metrics \<Rightarrow> metrics" where
  "bump_cache_hits m = m\<lparr>cache_hits := cache_hits m + 1\<rparr>"

text \<open>
  The loop \<open>for attempt in range(self.config.max_retries)\<close> of \<open>process\<close>, from the
  iteration \<open>attempt\<close> on, with the statement after the loop.
\<close>

function retry_loop ::
  "'v executor \<Rightarrow> 'v pydict \<Rightarrow> string \<Rightarrow> nat \<Rightarrow> 'v FeatureProcessor
     \<Rightarrow> (exn + 'v result) \<times> 'v FeatureProcessor" where
  "retry_loop exec d key attempt p =
     (if max_retries (config p) \<le> int attempt
      then (Inl (RuntimeError ''Unexpected processing failure'' None), p)
      else
        (case exec (calls p) d of
           Inr r \<Rightarrow>
             (Inr r,
              p\<lparr>calls := calls p + 1,
                cache := (if cache_enabled (config p) then (cache p)(key \<mapsto> r) else cache p),
                metrics := bump_processed (metrics p)\<rparr>)
         | Inl e \<Rightarrow>
             (if int attempt = max_retries (config p) - 1
              then
                (Inl (RuntimeError
                        (''Processing failed after '' @ str_int (max_retries (config p))
                           @ '' attempts'') (Some e)),
                 p\<lparr>calls := calls p + 1,
                   metrics := bump_failed (metrics p)\<rparr>)
              else
                retry_loop exec d key (attempt + 1)
                  (p\<lparr>calls := calls p + 1,
                     backoffs := backoffs p @ [2 ^ attempt]\<rparr>))))"
  by pat_completeness auto
termination
  by (relation "measure (\<lambda>(exec, d, key, attempt, p). nat (max_retries (config p) - int attempt))")
    auto

text \<open>\<open>FeatureProcessor.process\<close>.\<close>

definition process ::
  "('v \<Rightarrow> string) \<Rightarrow> 'v executor \<Rightarrow> 'v FeatureProcessor \<Rightarrow> 'v pydict
     \<Rightarrow> (exn + 'v result) \<times> 'v FeatureProcessor" where
  "process fmt exec p d =
     (if \<not> validate d then (Inl (ValueError ''Invalid input data structure''), p)
      else
        (case cache_key fmt d of
           Inl e \<Rightarrow> (Inl e, p)
         | Inr key \<Rightarrow>
             (if cache_enabled (config p) \<and> cache p key \<noteq> None
              then (Inr (the (cache p key)), p\<lparr>metrics := bump_cache_hits (metrics p)\<rparr>)
              else retry_loop exec d key 0 p)))"

text \<open>\<open>get_metrics\<close> returns a copy of the counters; \<open>clear_cache\<close> empties the cache.\<close>

definition get_metrics :: "'v FeatureProcessor \<Rightarrow> metrics \<times> 'v FeatureProcessor" where
  "get_metrics p = (metrics p, p)"

definition clear_cache :: "'v FeatureProcessor \<Rightarrow> 'v FeatureProcessor" where
  "clear_cache p = p\<lparr>cache := Map.empty\<rparr>"

text \<open>
  The call is served from the cache exactly when caching is on and the key of the input is
  a key of the cache; otherwise it reaches the retry loop.
\<close>

definition cache_hit :: "('v \<Rightarrow> string) \<Rightarrow> 'v FeatureProcessor \<Rightarrow> 'v pydict \<Rightarrow> bool" where
  "cache_hit fmt p d =
     (case cache_key fmt d of
        Inl e \<Rightarrow> False
      | Inr key \<Rightarrow> cache_enabled (config p) \<and> cache p key \<noteq> None)"

text \<open>
  The state after \<open>k\<close> failed attempts in a row, none of them the last one, starting at
  the iteration \<open>attempt\<close>.
\<close>

definition after_failures :: "nat \<Rightarrow> nat \<Rightarrow> 'v FeatureProcessor \<Rightarrow> 'v FeatureProcessor" where
  "after_failures attempt k p =
     p\<lparr>calls := calls p + k,
       backoffs := backoffs p @ map (\<lambda>i. 2 ^ i) [attempt..<attempt + k]\<rparr>"

text \<open>\<open>process\<close> with the processing step of the source.\<close>

definition FeatureProcessor_process ::
  "('v \<Rightarrow> string) \<Rightarrow> (nat \<Rightarrow> string) \<Rightarrow> 'v FeatureProcessor \<Rightarrow> 'v pydict
     \<Rightarrow> (exn + 'v result) \<times> 'v FeatureProcessor" where
  "FeatureProcessor_process fmt now p d =
     process fmt (execute_processing now (config p)) p d"

section \<open>Sequences of calls on one processor\<close>

datatype 'v operation = Process "'v pydict" | ClearCache | GetMetrics

fun apply_operation ::
  "('v \<Rightarrow> string) \<Rightarrow> 'v executor \<Rightarrow> 'v FeatureProcessor \<Rightarrow> 'v operation
     \<Rightarrow> 'v FeatureProcessor" where
  "apply_operation fmt exec p (Process d) = snd (process fmt exec p d)"
| "apply_operation fmt exec p ClearCache = clear_cache p"
| "apply_operation fmt exec p GetMetrics = snd (get_metrics p)"

text \<open>
  The invariant of the cache: every entry is the result of an earlier invocation of the
  processing step that succeeded, on an input with that key.
\<close>

definition cache_inv :: "('v \<Rightarrow> string) \<Rightarrow> 'v executor \<Rightarrow> 'v FeatureProcessor \<Rightarrow> bool" where
  "cache_inv fmt exec p =
     (\<forall>key r. cache p key = Some r \<longrightarrow>
        (\<exists>n d. n < calls p \<and> cache_key fmt d = Inr key \<and> exec n d = Inr r))"

section \<open>The factory\<close>

text \<open>
  The argument of \<open>create_feature_processor\<close> is a dictionary that is unpacked into the
  keyword arguments of \<open>FeatureConfig\<close>.  An entry is a field of the dataclass with a value
  of the field's type, or a key that is no field.
\<close>

datatype 'v kwarg =
    Kw_max_retries int
  | Kw_timeout int
  | Kw_cache_enabled bool
  | Kw_metadata "(string \<times> 'v) list"
  | Kw_unknown string

fun unknown_keys :: "'v kwarg list \<Rightarrow> string list" where
  "unknown_keys [] = []"
| "unknown_keys (Kw_unknown k # kws) = k # unknown_keys kws"
| "unknown_keys (kw # kws) = unknown_keys kws"

fun set_field :: "'v kwarg \<Rightarrow> 'v FeatureConfig \<Rightarrow> 'v FeatureConfig" where
  "set_field (Kw_max_retries n) cfg = cfg\<lparr>max_retries := n\<rparr>"
| "set_field (Kw_timeout n) cfg = cfg\<lparr>timeout := n\<rparr>"
| "set_field (Kw_cache_enabled b) cfg = cfg\<lparr>cache_enabled := b\<rparr>"
| "set_field (Kw_metadata m) cfg = cfg\<lparr>metadata := m\<rparr>"
| "set_field (Kw_unknown k) cfg = cfg"

text \<open>
  The generated \<open>__init__\<close> of the dataclass: a keyword that is no field raises
  \<open>TypeError\<close>; the fields given are stored as they are, the others take their defaults.
  No value is checked.
\<close>

definition FeatureConfig_init :: "'v kwarg list \<Rightarrow> exn + 'v FeatureConfig" where
  "FeatureConfig_init kws =
     (case unknown_keys kws of
        k # ks \<Rightarrow>
          Inl (TypeError
                 (''__init__() got an unexpected keyword argument '' @ [CHR 0x27] @ k
                    @ [CHR 0x27]))
      | [] \<Rightarrow> Inr (fold set_field kws FeatureConfig_default))"

definition create_feature_processor :: "'v kwarg list option \<Rightarrow> exn + 'v FeatureProcessor" where
  "create_feature_processor cfg =
     (case cfg of
        None \<Rightarrow> Inr (FeatureProcessor_init FeatureConfig_default)
      | Some kws \<Rightarrow>
          (if kws = [] then Inr (FeatureProcessor_init FeatureConfig_default)
           else
             (case FeatureConfig_init kws of
                Inl e \<Rightarrow> Inl e
              | Inr c \<Rightarrow> Inr (FeatureProcessor_init c))))"

section \<open>Batches\<close>

text \<open>
  \<open>process_batch\<close> creates one coroutine \<open>processor.process(item)\<close> per item and hands
  them to \<open>asyncio.gather(..., return_exceptions=True)\<close>.  The event loop runs one
  coroutine at a time; a coroutine keeps the processor to itself from one suspension to
  the next.  \<open>process\<close> suspends in two places: inside \<open>_execute_processing\<close> and in the
  sleep of the retry loop.  Between them a call is in one of four states: not yet started,
  suspended inside the invocation number \<open>n\<close> of the processing step (made for the
  iteration \<open>attempt\<close> of the loop), suspended in the sleep after the failed iteration
  \<open>attempt\<close>, or finished with a result or an exception.
\<close>

datatype 'v task =
    Pending "'v pydict"
  | Executing "'v pydict" string nat nat
  | Backoff "'v pydict" string nat
  | Done "exn + 'v result"

text \<open>The head of one iteration of the loop, up to the suspension inside the step.\<close>

definition begin_attempt ::
  "'v pydict \<Rightarrow> string \<Rightarrow> nat \<Rightarrow> 'v FeatureProcessor \<Rightarrow> 'v task \<times> 'v FeatureProcessor" where
  "begin_attempt d key attempt p =
     (if max_retries (config p) \<le> int attempt
      then (Done (Inl (RuntimeError ''Unexpected processing failure'' None)), p)
      else (Executing d key attempt (calls p), p\<lparr>calls := calls p + 1\<rparr>))"

text \<open>
  What a coroutine does when the event loop resumes it, up to its next suspension.  The
  branches are those of \<open>process\<close>, in its order.
\<close>

fun task_step ::
  "('v \<Rightarrow> string) \<Rightarrow> 'v executor \<Rightarrow> 'v task \<Rightarrow> 'v FeatureProcessor
     \<Rightarrow> 'v task \<times> 'v FeatureProcessor" where
  "task_step fmt exec (Pending d) p =
     (if \<not> validate d then (Done (Inl (ValueError ''Invalid input data structure'')), p)
      else
        (case cache_key fmt d of
           Inl e \<Rightarrow> (Done (Inl e), p)
         | Inr key \<Rightarrow>
             (if cache_enabled (config p) \<and> cache p key \<noteq> None
              then (Done (Inr (the (cache p key))),
                    p\<lparr>metrics := bump_cache_hits (metrics p)\<rparr>)
              else begin_attempt d key 0 p)))"
| "task_step fmt exec (Executing d key attempt n) p =
     (case exec n d of
        Inr r \<Rightarrow>
          (Done (Inr r),
           p\<lparr>cache := (if cache_enabled (config p) then (cache p)(key \<mapsto> r) else cache p),
             metrics := bump_processed (metrics p)\<rparr>)
      | Inl e \<Rightarrow>
          (if int attempt = max_retries (config p) - 1
           then
             (Done (Inl (RuntimeError
                      (''Processing failed after '' @ str_int (max_retries (config p))
                         @ '' attempts'') (Some e))),
              p\<lparr>metrics := bump_failed (metrics p)\<rparr>)
           else (Backoff d key attempt, p\<lparr>backoffs := backoffs p @ [2 ^ attempt]\<rparr>)))"
| "task_step fmt exec (Backoff d key attempt) p = begin_attempt d key (attempt + 1) p"
| "task_step fmt exec (Done out) p = (Done out, p)"

text \<open>
  A schedule is the list of the indices of the coroutines that the event loop resumes, in
  order; all of them share the processor.  An index outside the batch resumes nothing.
\<close>

fun run_schedule ::
  "('v \<Rightarrow> string) \<Rightarrow> 'v executor \<Rightarrow> nat list \<Rightarrow> 'v task list \<times> 'v FeatureProcessor
     \<Rightarrow> 'v task list \<times> 'v FeatureProcessor" where
  "run_schedule fmt exec [] (ts, p) = (ts, p)"
| "run_schedule fmt exec (i # sched) (ts, p) =
     (if i < length ts
      then (case task_step fmt exec (ts ! i) p of
              (t', p') \<Rightarrow> run_schedule fmt exec sched (ts[i := t'], p'))
      else run_schedule fmt exec sched (ts, p))"

text \<open>
  \<open>gather\<close> returns once every coroutine has finished, with the result or the exception of
  each in the order of the arguments; \<open>None\<close> says that some coroutine has not finished.
\<close>

fun outcome :: "'v task \<Rightarrow> (exn + 'v result) option" where
  "outcome (Done out) = Some out"
| "outcome t = None"

fun gathered :: "'v task list \<Rightarrow> (exn + 'v result) list option" where
  "gathered [] = Some []"
| "gathered (t # ts) =
     (case outcome t of
        None \<Rightarrow> None
      | Some out \<Rightarrow> (case gathered ts of None \<Rightarrow> None | Some outs \<Rightarrow> Some (out # outs)))"

text \<open>
  \<open>FeatureManager\<close> holds references to processor objects; the objects live in a store, a
  map from references to objects, so that two references may name one object.
\<close>

record FeatureManager =
  processors :: "nat list"

definition FeatureManager_init :: FeatureManager where
  "FeatureManager_init = \<lparr>processors = []\<rparr>"

definition add_processor :: "FeatureManager \<Rightarrow> nat \<Rightarrow> FeatureManager" where
  "add_processor m a = m\<lparr>processors := processors m @ [a]\<rparr>"

type_synonym 'v store = "nat \<Rightarrow> 'v FeatureProcessor"

text \<open>
  \<open>FeatureManager.process_batch\<close> for a given schedule of the event loop.  With no
  processor it raises \<open>ValueError\<close>; otherwise every item goes to \<open>self.processors[0]\<close>.
  The result is \<open>None\<close> when the schedule ends before every coroutine has finished.
\<close>

definition process_batch ::
  "('v \<Rightarrow> string) \<Rightarrow> 'v executor \<Rightarrow> nat list \<Rightarrow> FeatureManager \<Rightarrow> 'v pydict list
     \<Rightarrow> 'v store \<Rightarrow> (exn + (exn + 'v result) list) option \<times> 'v store" where
  "process_batch fmt exec sched m items s =
     (case processors m of
        [] \<Rightarrow> (Some (Inl (ValueError ''No processors available'')), s)
      | a # as \<Rightarrow>
          (case run_schedule fmt exec sched (map Pending items, s a) of
             (ts, p') \<Rightarrow> (map_option Inr (gathered ts), s(a := p'))))"

text \<open>
  What a slot of the result of a batch holds is stated against the processing step, for a
  batch of the items \<open>items\<close> that started on the processor \<open>p0\<close> and has made the
  invocations of the step with the numbers from \<open>calls p0\<close> up to \<open>hi\<close>.

  \<open>failed_attempts\<close>: the invocations \<open>ns\<close>, in the order they were made, are invocations
  of this batch before \<open>hi\<close>, and on the item \<open>d\<close> each of them failed.
\<close>

definition failed_attempts :: "'v executor \<Rightarrow> nat \<Rightarrow> nat \<Rightarrow> 'v pydict \<Rightarrow> nat list \<Rightarrow> bool" where
  "failed_attempts exec lo hi d ns =
     (sorted_wrt (<) ns \<and> list_all (\<lambda>n. lo \<le> n \<and> n < hi \<and> isl (exec n d)) ns)"

text \<open>
  \<open>stored\<close>: the result \<open>r\<close> was in the cache under \<open>key\<close> before the batch, or an
  invocation of this batch on an item of the batch with this key returned it.
\<close>

definition stored ::
  "('v \<Rightarrow> string) \<Rightarrow> 'v executor \<Rightarrow> 'v FeatureProcessor \<Rightarrow> nat \<Rightarrow> 'v pydict list
     \<Rightarrow> string \<Rightarrow> 'v result \<Rightarrow> bool" where
  "stored fmt exec p0 hi items key r =
     (cache p0 key = Some r \<or>
      (\<exists>n d. d \<in> set items \<and> cache_key fmt d = Inr key \<and> calls p0 \<le> n \<and> n < hi
          \<and> exec n d = Inr r))"

text \<open>
  \<open>from_cache\<close>: caching is on and \<open>r\<close> is a stored result for the key of \<open>d\<close>.
  \<open>own_result\<close>: fewer than \<open>max_retries\<close> attempts on \<open>d\<close> failed, and the attempt that
  followed them, the invocation \<open>n\<close>, returned \<open>r\<close>.
  \<open>exhausted\<close>: \<open>max_retries\<close> is at least 1, exactly \<open>max_retries\<close> attempts on \<open>d\<close>
  failed, and \<open>e\<close> is the \<open>RuntimeError\<close> of the loop with the failure of the last of them
  as its cause.
\<close>

definition from_cache ::
  "('v \<Rightarrow> string) \<Rightarrow> 'v executor \<Rightarrow> 'v FeatureProcessor \<Rightarrow> nat \<Rightarrow> 'v pydict list
     \<Rightarrow> 'v pydict \<Rightarrow> 'v result \<Rightarrow> bool" where
  "from_cache fmt exec p0 hi items d r =
     (cache_enabled (config p0) \<and>
      (\<exists>key. cache_key fmt d = Inr key \<and> stored fmt exec p0 hi items key r))"

definition own_result ::
  "'v executor \<Rightarrow> 'v FeatureProcessor \<Rightarrow> nat \<Rightarrow> 'v pydict \<Rightarrow> 'v result \<Rightarrow> bool" where
  "own_result exec p0 hi d r =
     (\<exists>ns n. int (length ns) < max_retries (config p0)
        \<and> failed_attempts exec (calls p0) n d ns
        \<and> calls p0 \<le> n \<and> n < hi \<and> exec n d = Inr r)"

definition exhausted ::
  "'v executor \<Rightarrow> 'v FeatureProcessor \<Rightarrow> nat \<Rightarrow> 'v pydict \<Rightarrow> exn \<Rightarrow> bool" where
  "exhausted exec p0 hi d e =
     (1 \<le> max_retries (config p0) \<and>
      (\<exists>ns e'. int (length ns) = max_retries (config p0)
         \<and> failed_attempts exec (calls p0) hi d ns
         \<and> exec (last ns) d = Inl e'
         \<and> e = RuntimeError
                 (''Processing failed after '' @ str_int (max_retries (config p0))
                    @ '' attempts'') (Some e')))"

text \<open>
  The slot of the item \<open>d\<close>.  For an item that fails validation it is the \<open>ValueError\<close> of
  \<open>process\<close>.  For a valid item it is a result, served from the cache or returned by an
  attempt of this item, or it is an exception: that of exhausted retries, which says that
  the step did fail \<open>max_retries\<close> times on this item, or, only when \<open>max_retries\<close> is
  not positive and the loop has no iteration, the one raised after the loop.
\<close>

definition slot_ok ::
  "('v \<Rightarrow> string) \<Rightarrow> 'v executor \<Rightarrow> 'v FeatureProcessor \<Rightarrow> nat \<Rightarrow> 'v pydict list
     \<Rightarrow> 'v pydict \<Rightarrow> exn + 'v result \<Rightarrow> bool" where
  "slot_ok fmt exec p0 hi items d out =
     (if validate d
      then (case out of
              Inl e \<Rightarrow>
                (max_retries (config p0) \<le> 0
                   \<and> e = RuntimeError ''Unexpected processing failure'' None)
                \<or> exhausted exec p0 hi d e
            | Inr r \<Rightarrow> from_cache fmt exec p0 hi items d r \<or> own_result exec p0 hi d r)
      else out = Inl (ValueError ''Invalid input data structure''))"

text \<open>
  The coroutine at the position of the item \<open>d\<close> works on \<open>d\<close>, in each of its states, and
  every attempt it has made so far has failed.
\<close>

fun task_for ::
  "('v \<Rightarrow> string) \<Rightarrow> 'v executor \<Rightarrow> 'v FeatureProcessor \<Rightarrow> nat \<Rightarrow> 'v pydict list
     \<Rightarrow> 'v pydict \<Rightarrow> 'v task \<Rightarrow> bool" where
  "task_for fmt exec p0 hi items d (Pending d') = (d' = d)"
| "task_for fmt exec p0 hi items d (Executing d' key attempt n) =
     (d' = d \<and> validate d \<and> cache_key fmt d = Inr key
        \<and> int attempt < max_retries (config p0) \<and> calls p0 \<le> n \<and> n < hi
        \<and> (\<exists>ns. length ns = attempt \<and> failed_attempts exec (calls p0) n d ns))"
| "task_for fmt exec p0 hi items d (Backoff d' key attempt) =
     (d' = d \<and> validate d \<and> cache_key fmt d = Inr key
        \<and> int attempt < max_retries (config p0) - 1
        \<and> (\<exists>ns. length ns = attempt + 1 \<and> failed_attempts exec (calls p0) hi d ns))"
| "task_for fmt exec p0 hi items d (Done out) = slot_ok fmt exec p0 hi items d out"

text \<open>Every entry of the cache of the shared processor is a stored result.\<close>

definition cache_origin ::
  "('v \<Rightarrow> string) \<Rightarrow> 'v executor \<Rightarrow> 'v FeatureProcessor \<Rightarrow> 'v pydict list
     \<Rightarrow> 'v FeatureProcessor \<Rightarrow> bool" where
  "cache_origin fmt exec p0 items p =
     (\<forall>key r. cache p key = Some r \<longrightarrow> stored fmt exec p0 (calls p) items key r)"

text \<open>
  The state of a batch in progress: one coroutine per item, each in a state that fits its
  item, on a processor with the configuration the batch started with.
\<close>

definition batch_inv ::
  "('v \<Rightarrow> string) \<Rightarrow> 'v executor \<Rightarrow> 'v FeatureProcessor \<Rightarrow> 'v pydict list
     \<Rightarrow> 'v task list \<Rightarrow> 'v FeatureProcessor \<Rightarrow> bool" where
  "batch_inv fmt exec p0 items ts p =
     (length ts = length items \<and> config p = config p0 \<and> calls p0 \<le> calls p
        \<and> cache_origin fmt exec p0 items p
        \<and> (\<forall>i<length items. task_for fmt exec p0 (calls p) items (items ! i) (ts ! i)))"

text \<open>A bound on the number of times a coroutine can still be resumed before it finishes.\<close>

fun remaining :: "nat \<Rightarrow> 'v task \<Rightarrow> nat" where
  "remaining N (Pending d) = 2 * N + 3"
| "remaining N (Executing d key attempt n) = 2 * (N - attempt) + 2"
| "remaining N (Backoff d key attempt) = 2 * (N - attempt) + 1"
| "remaining N (Done out) = 0"

section \<open>Sample values\<close>

text \<open>Values of two Python types, with their \<open>str\<close>, for the concrete runs below.\<close>

datatype pyval = PStr string | PInt int

fun str_pyval :: "pyval \<Rightarrow> string" where
  "str_pyval (PStr s) = s"
| "str_pyval (PInt i) = str_int i"

definition sample_data :: "pyval pydict" where
  "sample_data =
     [''id'' \<mapsto> PStr ''test-123'', ''timestamp'' \<mapsto> PInt 1234567890,
      ''payload'' \<mapsto> PStr ''value'']"

definition invalid_data :: "pyval pydict" where
  "invalid_data = [''id'' \<mapsto> PStr ''test'']"

definition always_failing :: "pyval executor" where
  "always_failing n d = Inl (Exception (''failure '' @ str_nat n))"

definition sample_clock :: "nat \<Rightarrow> string" where
  "sample_clock n = ''2024-01-01T00:00:0'' @ str_nat n"

definition sample_config :: "int \<Rightarrow> pyval FeatureConfig" where
  "sample_config n = \<lparr>max_retries = n, timeout = 10, cache_enabled = True, metadata = []\<rparr>"

definition sample_result :: "pyval result" where
  "sample_result =
     \<lparr>success = True, data = PStr ''value'', processed_at = sample_clock 0, r_config = []\<rparr>"

definition sample_items :: "pyval pydict list" where
  "sample_items = [sample_data, invalid_data, sample_data]"

definition sample_manager :: FeatureManager where
  "sample_manager = add_processor (add_processor FeatureManager_init 0) 1"

definition sample_store :: "pyval store" where
  "sample_store a = FeatureProcessor_init (sample_config 1)"

definition round_robin :: "nat \<Rightarrow> nat \<Rightarrow> nat list" where
  "round_robin k n = concat (replicate n [0..<k])"

definition sample_exec :: "pyval executor" where
  "sample_exec = execute_processing sample_clock (sample_config 1)"

text \<open>
  A second batch for the concrete runs: a valid record on which the step \<open>flaky_exec\<close>
  fails at every attempt, beside a record on which it succeeds and an invalid one.
\<close>

definition failing_data :: "pyval pydict" where
  "failing_data =
     [''id'' \<mapsto> PStr ''test-456'', ''timestamp'' \<mapsto> PInt 1234567890,
      ''payload'' \<mapsto> PStr ''boom'']"

definition flaky_exec :: "pyval executor" where
  "flaky_exec n d =
     (if d ''payload'' = Some (PStr ''boom'') then Inl (Exception ''boom'')
      else sample_exec n d)"

definition mixed_items :: "pyval pydict list" where
  "mixed_items = [sample_data, failing_data, invalid_data]"

section \<open>The retry loop, one iteration at a time\<close>

declare retry_loop.simps [simp del]

lemma retry_loop_exhausted:
  "max_retries (config p) \<le> int attempt \<Longrightarrow>
   retry_loop exec d key attempt p =
     (Inl (RuntimeError ''Unexpected processing failure'' None), p)"
  by (subst retry_loop.simps) simp

lemma retry_loop_success:
  "int attempt < max_retries (config p) \<Longrightarrow> exec (calls p) d = Inr r \<Longrightarrow>
   retry_loop exec d key attempt p =
     (Inr r,
      p\<lparr>calls := calls p + 1,
        cache := (if cache_enabled (config p) then (cache p)(key \<mapsto> r) else cache p),
        metrics := bump_processed (metrics p)\<rparr>)"
  by (subst retry_loop.simps) simp

lemma retry_loop_last_failure:
  "int attempt = max_retries (config p) - 1 \<Longrightarrow> exec (calls p) d = Inl e \<Longrightarrow>
   retry_loop exec d key attempt p =
     (Inl (RuntimeError
             (''Processing failed after '' @ str_int (max_retries (config p)) @ '' attempts'')
             (Some e)),
      p\<lparr>calls := calls p + 1, metrics := bump_failed (metrics p)\<rparr>)"
  by (subst retry_loop.simps) simp

lemma retry_loop_failure:
  "int attempt < max_retries (config p) - 1 \<Longrightarrow> exec (calls p) d = Inl e \<Longrightarrow>
   retry_loop exec d key attempt p =
     retry_loop exec d key (attempt + 1)
       (p\<lparr>calls := calls p + 1, backoffs := backoffs p @ [2 ^ attempt]\<rparr>)"
  by (subst retry_loop.simps) simp

lemma after_failures_simps [simp]:
  "config (after_failures a k p) = config p"
  "cache (after_failures a k p) = cache p"
  "metrics (after_failures a k p) = metrics p"
  "calls (after_failures a k p) = calls p + k"
  "backoffs (after_failures a k p) = backoffs p @ map (\<lambda>i. 2 ^ i) [a..<a + k]"
  by (simp_all add: after_failures_def)

lemma retry_loop_failures:
  "int (attempt + k) < max_retries (config p) \<Longrightarrow>
   \<forall>i<k. isl (exec (calls p + i) d) \<Longrightarrow>
   retry_loop exec d key attempt p =
     retry_loop exec d key (attempt + k) (after_failures attempt k p)"
proof (induction k)
  case 0
  then show ?case by (simp add: after_failures_def)
next
  case (Suc k)
  let ?q = "after_failures attempt k p"
  from Suc.prems have "isl (exec (calls p + k) d)" by simp
  then obtain e where e: "exec (calls ?q) d = Inl e"
    by (cases "exec (calls p + k) d") simp_all
  have "retry_loop exec d key attempt p = retry_loop exec d key (attempt + k) ?q"
    using Suc by simp
  also have "\<dots> = retry_loop exec d key (attempt + k + 1)
       (?q\<lparr>calls := calls ?q + 1, backoffs := backoffs ?q @ [2 ^ (attempt + k)]\<rparr>)"
    using Suc.prems e by (intro retry_loop_failure) simp_all
  also have "?q\<lparr>calls := calls ?q + 1, backoffs := backoffs ?q @ [2 ^ (attempt + k)]\<rparr>
      = after_failures attempt (Suc k) p"
    by (simp add: after_failures_def)
  finally show ?case by simp
qed

lemma validate_iff:
  "validate d \<longleftrightarrow> d ''id'' \<noteq> None \<and> d ''timestamp'' \<noteq> None \<and> d ''payload'' \<noteq> None"
  by (simp add: validate_def required_fields_def)

lemma validate_cache_key:
  "validate d \<Longrightarrow> \<exists>key. cache_key fmt d = Inr key"
  by (auto simp: validate_iff cache_key_def)

lemma process_miss:
  "validate d \<Longrightarrow> cache_key fmt d = Inr key \<Longrightarrow> \<not> cache_hit fmt p d \<Longrightarrow>
   process fmt exec p d = retry_loop exec d key 0 p"
  by (auto simp: process_def cache_hit_def)

lemma process_hit:
  "validate d \<Longrightarrow> cache_key fmt d = Inr key \<Longrightarrow> cache_enabled (config p) \<Longrightarrow>
   cache p key = Some r \<Longrightarrow>
   process fmt exec p d = (Inr r, p\<lparr>metrics := bump_cache_hits (metrics p)\<rparr>)"
  by (simp add: process_def)

text \<open>Every attempt fails: the loop runs to its last iteration and raises there.\<close>

lemma retry_loop_all_fail:
  assumes N: "max_retries (config p) = int (Suc m)"
    and fails: "\<forall>i<Suc m. exec (calls p + i) d = Inl (e i)"
  shows "retry_loop exec d key 0 p =
     (Inl (RuntimeError (''Processing failed after '' @ str_int (int (Suc m)) @ '' attempts'')
             (Some (e m))),
      (after_failures 0 m p)\<lparr>calls := calls p + Suc m, metrics := bump_failed (metrics p)\<rparr>)"
proof -
  let ?q = "after_failures 0 m p"
  have "retry_loop exec d key 0 p = retry_loop exec d key (0 + m) ?q"
    using N fails by (intro retry_loop_failures) simp_all
  also have "\<dots> = (Inl (RuntimeError
             (''Processing failed after '' @ str_int (max_retries (config ?q)) @ '' attempts'')
             (Some (e m))),
      ?q\<lparr>calls := calls ?q + 1, metrics := bump_failed (metrics ?q)\<rparr>)"
    using N fails by (intro retry_loop_last_failure) simp_all
  finally show ?thesis using N by simp
qed

lemma process_no_attempts:
  "validate d \<Longrightarrow> \<not> cache_hit fmt p d \<Longrightarrow> max_retries (config p) \<le> 0 \<Longrightarrow>
   process fmt exec p d = (Inl (RuntimeError ''Unexpected processing failure'' None), p)"
  using validate_cache_key[of d fmt]
  by (auto simp: process_miss retry_loop_exhausted)

section \<open>What a call leaves in the cache\<close>

lemma retry_loop_config [simp]:
  "config (snd (retry_loop exec d key attempt p)) = config p"
proof (induction exec d key attempt p rule: retry_loop.induct)
  case (1 exec d key attempt p)
  show ?case
  proof (cases "exec (calls p) d")
    case (Inl e)
    then show ?thesis
      using "1.IH"[of e] by (subst retry_loop.simps) simp
  next
    case (Inr r)
    then show ?thesis by (subst retry_loop.simps) simp
  qed
qed

lemma retry_loop_caches_result:
  "retry_loop exec d key attempt p = (Inr r, p') \<Longrightarrow> cache_enabled (config p) \<Longrightarrow>
   cache p' key = Some r"
proof (induction exec d key attempt p rule: retry_loop.induct)
  case (1 exec d key attempt p)
  show ?case
  proof (cases "exec (calls p) d")
    case (Inl e)
    then show ?thesis
      using "1.IH"[of e] "1.prems"
      by (subst (asm) retry_loop.simps) (auto split: if_splits)
  next
    case (Inr r')
    then show ?thesis
      using "1.prems" by (subst (asm) retry_loop.simps) (auto split: if_splits)
  qed
qed

lemma cache_key_cong:
  "d2 ''id'' = d1 ''id'' \<Longrightarrow> d2 ''timestamp'' = d1 ''timestamp'' \<Longrightarrow>
   cache_key fmt d2 = cache_key fmt d1"
  by (simp add: cache_key_def split: option.splits)

lemma process_result_cached:
  assumes "process fmt exec p d = (Inr r, p')" and "cache_enabled (config p)"
  shows "\<exists>key. cache_key fmt d = Inr key \<and> cache p' key = Some r \<and> cache_enabled (config p')"
proof -
  from assms(1) have v: "validate d"
    by (auto simp: process_def split: if_splits)
  then obtain key where key: "cache_key fmt d = Inr key"
    using validate_cache_key by blast
  show ?thesis
  proof (cases "cache p key")
    case None
    then have "retry_loop exec d key 0 p = (Inr r, p')"
      using assms(1) v key by (simp add: process_def)
    then show ?thesis
      using key assms(2) retry_loop_caches_result[of exec d key 0 p r p']
        retry_loop_config[of exec d key 0 p] by simp
  next
    case (Some r0)
    then show ?thesis
      using assms v key by (auto simp: process_def)
  qed
qed

section \<open>The sample values\<close>

lemma sample_valid: "validate sample_data"
  by (simp add: validate_iff sample_data_def)

lemma sample_key: "cache_key str_pyval sample_data = Inr ''test-123:1234567890''"
  by (simp add: cache_key_def sample_data_def str_int_def)

lemma init_simps [simp]:
  "config (FeatureProcessor_init cfg) = cfg"
  "cache (FeatureProcessor_init cfg) = Map.empty"
  "metrics (FeatureProcessor_init cfg) = \<lparr>processed = 0, failed = 0, cache_hits = 0\<rparr>"
  "calls (FeatureProcessor_init cfg) = 0"
  "backoffs (FeatureProcessor_init cfg) = []"
  by (simp_all add: FeatureProcessor_init_def)

lemma sample_config_simps [simp]:
  "max_retries (sample_config n) = n"
  "cache_enabled (sample_config n) = True"
  "metadata (sample_config n) = []"
  by (simp_all add: sample_config_def)

lemma sample_miss: "\<not> cache_hit str_pyval (FeatureProcessor_init cfg) sample_data"
  by (simp add: cache_hit_def sample_key)

lemma sample_first_call:
  "process str_pyval (execute_processing sample_clock (sample_config 2))
     (FeatureProcessor_init (sample_config 2)) sample_data =
   (Inr sample_result,
    (FeatureProcessor_init (sample_config 2))
      \<lparr>calls := 1, cache := [''test-123:1234567890'' \<mapsto> sample_result],
       metrics := \<lparr>processed = 1, failed = 0, cache_hits = 0\<rparr>\<rparr>)"
proof -
  let ?p = "FeatureProcessor_init (sample_config 2)"
  let ?exec = "execute_processing sample_clock (sample_config 2)"
  have ex: "?exec (calls ?p) sample_data = Inr sample_result"
    by (simp add: execute_processing_def sample_data_def sample_result_def)
  have "process str_pyval ?exec ?p sample_data
      = retry_loop ?exec sample_data ''test-123:1234567890'' 0 ?p"
    by (simp add: process_miss sample_valid sample_key sample_miss)
  also have "\<dots> = (Inr sample_result,
      ?p\<lparr>calls := calls ?p + 1,
        cache := (if cache_enabled (config ?p)
                  then (cache ?p)(''test-123:1234567890'' \<mapsto> sample_result) else cache ?p),
        metrics := bump_processed (metrics ?p)\<rparr>)"
    using ex by (intro retry_loop_success) simp_all
  finally show ?thesis by (simp add: bump_processed_def)
qed

section \<open>A configuration with no retries\<close>

text \<open>
  C1.  The specification says that with \<open>maxRetries = 0\<close> and a failing processing step,
  \<open>process\<close> on a valid record invokes the step exactly once and then fails.  The loop
  \<open>for attempt in range(self.config.max_retries)\<close> has no iteration when
  \<open>max_retries\<close> is 0: on the valid sample record, with a step that would fail, the call
  raises \<open>RuntimeError("Unexpected processing failure")\<close> with no cause, and the
  processor is left exactly as it was: the step was invoked zero times (\<open>calls\<close> is
  still 0), and the counter of failures was not incremented.
\<close>

theorem process_zero_retries_never_executes:
  "process str_pyval always_failing (FeatureProcessor_init (sample_config 0)) sample_data =
     (Inl (RuntimeError ''Unexpected processing failure'' None),
      FeatureProcessor_init (sample_config 0))"
  by (rule process_no_attempts) (simp_all add: sample_valid sample_miss)

section \<open>Retry exhaustion\<close>

text \<open>
  C2.  Let \<open>max_retries\<close> be \<open>N \<ge> 1\<close>, let the record be valid and not served from the
  cache (so that the call reaches the retry loop), and let the processing step fail on
  each of the \<open>N\<close> attempts, attempt \<open>i\<close> with the failure \<open>e i\<close>.  Then \<open>process\<close>
  raises \<open>RuntimeError\<close> whose cause is the failure of the last attempt, the step has been
  invoked exactly \<open>N\<close> times, the counter of failures has grown by exactly 1, the two
  other counters and the cache are unchanged.
\<close>

theorem retry_exhaustion:
  assumes "validate d" and "\<not> cache_hit fmt p d"
    and "max_retries (config p) = int N" and "1 \<le> N"
    and "\<forall>i<N. exec (calls p + i) d = Inl (e i)"
  shows "\<exists>p'. process fmt exec p d =
           (Inl (RuntimeError (''Processing failed after '' @ str_int (int N) @ '' attempts'')
                   (Some (e (N - 1)))), p')
         \<and> calls p' = calls p + N
         \<and> failed (metrics p') = failed (metrics p) + 1
         \<and> processed (metrics p') = processed (metrics p)
         \<and> cache_hits (metrics p') = cache_hits (metrics p)
         \<and> cache p' = cache p"
proof -
  from assms(4) obtain m where m: "N = Suc m" by (cases N) simp_all
  from assms(1) obtain key where key: "cache_key fmt d = Inr key"
    using validate_cache_key by blast
  have "process fmt exec p d = retry_loop exec d key 0 p"
    using assms(1,2) key by (simp add: process_miss)
  also have "\<dots> = (Inl (RuntimeError (''Processing failed after '' @ str_int (int (Suc m)) @ '' attempts'')
             (Some (e m))),
      (after_failures 0 m p)\<lparr>calls := calls p + Suc m, metrics := bump_failed (metrics p)\<rparr>)"
    using assms(3,5) unfolding m by (rule retry_loop_all_fail)
  finally show ?thesis
    unfolding m by (simp add: bump_failed_def)
qed

theorem retry_exhaustion_witness:
  "validate sample_data \<and>
   \<not> cache_hit str_pyval (FeatureProcessor_init (sample_config 3)) sample_data \<and>
   (\<exists>p'. process str_pyval always_failing (FeatureProcessor_init (sample_config 3)) sample_data =
           (Inl (RuntimeError ''Processing failed after 3 attempts''
                   (Some (Exception ''failure 2''))), p')
         \<and> calls p' = 3
         \<and> failed (metrics p') = 1
         \<and> processed (metrics p') = 0
         \<and> cache_hits (metrics p') = 0
         \<and> cache p' = Map.empty)"
  using retry_exhaustion [of sample_data str_pyval "FeatureProcessor_init (sample_config 3)" 3
      always_failing "\<lambda>i. Exception (''failure '' @ str_nat i)"]
  by (simp add: sample_valid sample_miss always_failing_def str_int_def)

section \<open>Invalid records\<close>

text \<open>
  C3.  If one of the keys \<open>id\<close>, \<open>timestamp\<close>, \<open>payload\<close> is missing from the record,
  \<open>process\<close> raises \<open>ValueError\<close> and returns the processor it was given: the processing
  step was not invoked (\<open>calls\<close> is unchanged), and the cache and the three counters are
  what they were.  This holds for every processing step and every processor state.
\<close>

theorem invalid_record_rejected:
  "d ''id'' = None \<or> d ''timestamp'' = None \<or> d ''payload'' = None \<Longrightarrow>
   process fmt exec p d = (Inl (ValueError ''Invalid input data structure''), p)"
  by (auto simp: process_def validate_iff)

theorem invalid_record_rejected_witness:
  "invalid_data ''timestamp'' = None \<and>
   process str_pyval always_failing (FeatureProcessor_init (sample_config 2)) invalid_data =
     (Inl (ValueError ''Invalid input data structure''), FeatureProcessor_init (sample_config 2))"
  using invalid_record_rejected
    [of invalid_data str_pyval always_failing "FeatureProcessor_init (sample_config 2)"]
  by (simp add: invalid_data_def)

section \<open>The second call is served from the cache\<close>

text \<open>
  Once a call of \<open>process\<close> has returned a result with caching enabled, a call that
  follows it on a valid record with the same \<open>id\<close> and \<open>timestamp\<close> returns the same
  result without invoking the step, increments \<open>cache_hits\<close> by exactly 1 and leaves
  \<open>processed\<close> as it was.  A first call returns a result whenever the loop has an
  iteration (\<open>max_retries\<close> is at least 1) and the step succeeds: so the two sequential
  calls return equal results for every \<open>max_retries\<close> from 1 on.
\<close>

lemma replay_from_cache:
  assumes "cache_enabled (config p)"
    and "process fmt exec p d1 = (Inr r1, p1)"
    and "validate d2" and "d2 ''id'' = d1 ''id''" and "d2 ''timestamp'' = d1 ''timestamp''"
  shows "\<exists>p2. process fmt exec p1 d2 = (Inr r1, p2)
           \<and> calls p2 = calls p1
           \<and> cache_hits (metrics p2) = cache_hits (metrics p1) + 1
           \<and> processed (metrics p2) = processed (metrics p1)
           \<and> failed (metrics p2) = failed (metrics p1)
           \<and> cache p2 = cache p1"
proof -
  from process_result_cached[OF assms(2,1)] obtain key where
    key: "cache_key fmt d1 = Inr key" and c: "cache p1 key = Some r1"
    and en: "cache_enabled (config p1)" by blast
  have "cache_key fmt d2 = Inr key"
    using key cache_key_cong[OF assms(4,5)] by simp
  then have "process fmt exec p1 d2 = (Inr r1, p1\<lparr>metrics := bump_cache_hits (metrics p1)\<rparr>)"
    using assms(3) en c by (simp add: process_hit)
  then show ?thesis by (simp add: bump_cache_hits_def)
qed

lemma first_call_returns:
  assumes "1 \<le> max_retries (config p)" and "validate d"
    and "exec (calls p) d = Inr r"
  shows "\<exists>r1 p1. process fmt exec p d = (Inr r1, p1)"
proof -
  from assms(2) obtain key where key: "cache_key fmt d = Inr key"
    using validate_cache_key by blast
  show ?thesis
  proof (cases "cache_hit fmt p d")
    case True
    then show ?thesis using assms(2) key by (auto simp: process_def cache_hit_def)
  next
    case False
    then have "process fmt exec p d = retry_loop exec d key 0 p"
      using assms(2) key by (simp add: process_miss)
    then show ?thesis
      using retry_loop_success[of 0 p exec d r key] assms(1,3) by simp
  qed
qed

lemma sequential_calls_with_attempts:
  assumes "cache_enabled (config p)" and "1 \<le> max_retries (config p)"
    and "validate d1" and "exec (calls p) d1 = Inr r"
    and "validate d2" and "d2 ''id'' = d1 ''id''" and "d2 ''timestamp'' = d1 ''timestamp''"
  shows "\<exists>r1 p1 p2. process fmt exec p d1 = (Inr r1, p1)
           \<and> process fmt exec p1 d2 = (Inr r1, p2)
           \<and> calls p2 = calls p1
           \<and> cache_hits (metrics p2) = cache_hits (metrics p1) + 1
           \<and> processed (metrics p2) = processed (metrics p1)"
proof -
  obtain r1 p1 where first: "process fmt exec p d1 = (Inr r1, p1)"
    using first_call_returns[where p = p and d = d1 and exec = exec and r = r and fmt = fmt]
      assms(2,3,4) by blast
  from replay_from_cache[OF assms(1) first assms(5,6,7)] first
  show ?thesis by blast
qed

text \<open>
  C4.  The specification says that with caching enabled and the step succeeding, two
  sequential calls on records with the same \<open>id\<close> and \<open>timestamp\<close> return equal results,
  the second one counted as a cache hit.  With \<open>max_retries = 0\<close> the loop of \<open>process\<close>
  has no iteration: on the valid sample record, with caching enabled and the step of the
  source, which would return a result, the first call raises
  \<open>RuntimeError("Unexpected processing failure")\<close> and leaves the processor as it was, so
  the second call raises the same exception; neither call returns a result, nothing is
  cached, and \<open>cache_hits\<close> is still 0.
\<close>

theorem zero_retries_nothing_to_replay:
  "cache_enabled (config (FeatureProcessor_init (sample_config 0))) \<and>
   execute_processing sample_clock (sample_config 0) 0 sample_data = Inr sample_result \<and>
   FeatureProcessor_process str_pyval sample_clock (FeatureProcessor_init (sample_config 0))
       sample_data =
     (Inl (RuntimeError ''Unexpected processing failure'' None),
      FeatureProcessor_init (sample_config 0)) \<and>
   FeatureProcessor_process str_pyval sample_clock
       (snd (FeatureProcessor_process str_pyval sample_clock
               (FeatureProcessor_init (sample_config 0)) sample_data))
       sample_data =
     (Inl (RuntimeError ''Unexpected processing failure'' None),
      FeatureProcessor_init (sample_config 0)) \<and>
   metrics (FeatureProcessor_init (sample_config 0)) =
     \<lparr>processed = 0, failed = 0, cache_hits = 0\<rparr>"
proof -
  let ?p = "FeatureProcessor_init (sample_config 0) :: pyval FeatureProcessor"
  have call: "FeatureProcessor_process str_pyval sample_clock ?p sample_data =
      (Inl (RuntimeError ''Unexpected processing failure'' None), ?p)"
    unfolding FeatureProcessor_process_def
    by (rule process_no_attempts) (simp_all add: sample_valid sample_miss)
  have step: "execute_processing sample_clock (sample_config 0) 0 sample_data = Inr sample_result"
    by (simp add: execute_processing_def sample_data_def sample_result_def)
  show ?thesis
    using step by (simp add: call)
qed

section \<open>Exponential backoff\<close>

text \<open>
  C7.  Let \<open>max_retries\<close> be \<open>N \<ge> 1\<close> and let the call reach the retry loop.  Let the
  first \<open>f\<close> attempts fail (\<open>f \<le> N\<close>), and, if \<open>f < N\<close>, let the attempt with index \<open>f\<close>
  succeed.  Then the sleeps of the call are, in this order, \<open>2 ^ i\<close> for the failed
  attempts \<open>i < N - 1\<close> and no others: the list \<open>1, 2, 4, \<dots>\<close> of length
  \<open>min f (N - 1)\<close>.  A failed attempt \<open>i\<close> is followed by a sleep of \<open>2 ^ i\<close> exactly
  when \<open>i < N - 1\<close>; the last attempt is followed by none.
\<close>

theorem backoff_schedule:
  assumes "validate d" and "\<not> cache_hit fmt p d"
    and "max_retries (config p) = int N" and "1 \<le> N" and "f \<le> N"
    and "\<forall>i<f. isl (exec (calls p + i) d)"
    and "f < N \<longrightarrow> \<not> isl (exec (calls p + f) d)"
  shows "backoffs (snd (process fmt exec p d)) =
           backoffs p @ map (\<lambda>i. 2 ^ i) [0..<min f (N - 1)]"
proof -
  from assms(1) obtain key where key: "cache_key fmt d = Inr key"
    using validate_cache_key by blast
  have start: "process fmt exec p d = retry_loop exec d key 0 p"
    using assms(1,2) key by (simp add: process_miss)
  show ?thesis
  proof (cases "f < N")
    case True
    let ?q = "after_failures 0 f p"
    from True assms(7) obtain r where r: "exec (calls ?q) d = Inr r"
      by (cases "exec (calls p + f) d") simp_all
    have "retry_loop exec d key 0 p = retry_loop exec d key (0 + f) ?q"
      using True assms(3,6) by (intro retry_loop_failures) simp_all
    also have "\<dots> = (Inr r,
        ?q\<lparr>calls := calls ?q + 1,
          cache := (if cache_enabled (config ?q) then (cache ?q)(key \<mapsto> r) else cache ?q),
          metrics := bump_processed (metrics ?q)\<rparr>)"
      using True assms(3) r by (intro retry_loop_success) simp_all
    finally show ?thesis using True start by simp
  next
    case False
    with assms(5) have fN: "f = N" by simp
    from assms(4) obtain m where m: "N = Suc m" by (cases N) simp_all
    have "\<forall>i<Suc m. exec (calls p + i) d = Inl (projl (exec (calls p + i) d))"
      using assms(6) fN m by simp
    with assms(3) m have "retry_loop exec d key 0 p =
       (Inl (RuntimeError (''Processing failed after '' @ str_int (int (Suc m)) @ '' attempts'')
             (Some (projl (exec (calls p + m) d)))),
        (after_failures 0 m p)\<lparr>calls := calls p + Suc m, metrics := bump_failed (metrics p)\<rparr>)"
      by (intro retry_loop_all_fail[where e = "\<lambda>i. projl (exec (calls p + i) d)"]) simp_all
    then show ?thesis using start fN m by simp
  qed
qed

theorem backoff_schedule_witness:
  "backoffs (snd (process str_pyval always_failing (FeatureProcessor_init (sample_config 3))
      sample_data)) = [1, 2]"
  using backoff_schedule
    [of sample_data str_pyval "FeatureProcessor_init (sample_config 3)" 3 3 always_failing]
  by (simp add: sample_valid sample_miss always_failing_def upt_rec)

section \<open>Clearing the cache and reading the counters\<close>

text \<open>
  C10.  \<open>clear_cache\<close> leaves the three counters as they were.  \<open>get_metrics\<close> returns the
  counters and leaves the cache and the counters as they were.
\<close>

theorem clear_and_metrics_frame:
  "metrics (clear_cache p) = metrics p \<and>
   fst (get_metrics p) = metrics p \<and>
   cache (snd (get_metrics p)) = cache p \<and>
   metrics (snd (get_metrics p)) = metrics p"
  by (simp add: clear_cache_def get_metrics_def)

section \<open>Building a processor from a mapping\<close>

lemma unknown_keys_mem: "Kw_unknown k \<in> set kws \<Longrightarrow> k \<in> set (unknown_keys kws)"
  by (induction kws rule: unknown_keys.induct) auto

lemma unknown_keys_empty: "(unknown_keys kws = []) = (\<forall>k. Kw_unknown k \<notin> set kws)"
  by (induction kws rule: unknown_keys.induct) auto

text \<open>
  C6, as the specification states it: building a processor from a mapping fails whenever
  the mapping has an unknown field name or a negative retry count.  The dataclass checks
  no value: the mapping \<open>{'max_retries': -1}\<close> builds a processor whose \<open>max_retries\<close> is
  \<open>-1\<close>.
\<close>

theorem factory_accepts_negative_retries:
  "create_feature_processor (Some [Kw_max_retries (- 1)]) =
     Inr (FeatureProcessor_init
            \<lparr>max_retries = - 1, timeout = 30, cache_enabled = True,
             metadata = ([] :: (string \<times> pyval) list)\<rparr>)"
  by (simp add: create_feature_processor_def FeatureConfig_init_def FeatureConfig_default_def)

text \<open>
  C6, amended.  A mapping with a key that is no field of \<open>FeatureConfig\<close> raises
  \<open>TypeError\<close> (the configuration error of the specification) and no processor is built,
  so no record is processed.  A mapping whose keys are all fields builds a processor with
  the values given, whatever they are, a negative retry count included.
\<close>

theorem factory_rejects_unknown_field:
  "(Kw_unknown k \<in> set kws \<longrightarrow>
      (\<exists>msg. create_feature_processor (Some kws) = Inl (TypeError msg))) \<and>
   ((\<forall>k. Kw_unknown k \<notin> set kws) \<longrightarrow>
      create_feature_processor (Some kws) =
        Inr (FeatureProcessor_init (fold set_field kws FeatureConfig_default)))"
proof (intro conjI impI)
  assume "Kw_unknown k \<in> set kws"
  then have "unknown_keys kws \<noteq> []" and "kws \<noteq> []"
    using unknown_keys_mem by fastforce+
  then show "\<exists>msg. create_feature_processor (Some kws) = Inl (TypeError msg)"
    by (cases "unknown_keys kws") (simp_all add: create_feature_processor_def FeatureConfig_init_def)
next
  assume "\<forall>k. Kw_unknown k \<notin> set kws"
  then have "unknown_keys kws = []" by (simp add: unknown_keys_empty)
  then show "create_feature_processor (Some kws) =
        Inr (FeatureProcessor_init (fold set_field kws FeatureConfig_default))"
    by (simp add: create_feature_processor_def FeatureConfig_init_def)
qed

theorem factory_rejects_unknown_field_witness:
  "Kw_unknown ''retries'' \<in> set [Kw_timeout 5, Kw_unknown ''retries'' :: pyval kwarg] \<and>
   (\<exists>msg. create_feature_processor (Some [Kw_timeout 5, Kw_unknown ''retries'' :: pyval kwarg]) =
     Inl (TypeError msg)) \<and>
   (\<forall>k. Kw_unknown k \<notin> set [Kw_timeout 5, Kw_max_retries (- 1) :: pyval kwarg]) \<and>
   create_feature_processor (Some [Kw_timeout 5, Kw_max_retries (- 1) :: pyval kwarg]) =
     Inr (FeatureProcessor_init
            \<lparr>max_retries = - 1, timeout = 5, cache_enabled = True, metadata = []\<rparr>)"
  using factory_rejects_unknown_field [of "''retries''" "[Kw_timeout 5, Kw_unknown ''retries'' :: pyval kwarg]"]
    factory_rejects_unknown_field [of k "[Kw_timeout 5, Kw_max_retries (- 1) :: pyval kwarg]"]
  by (simp add: FeatureConfig_default_def)

section \<open>The invariant of the cache\<close>

lemma cache_inv_init: "cache_inv fmt exec (FeatureProcessor_init cfg)"
  by (simp add: cache_inv_def)

lemma cache_inv_calls:
  "cache_inv fmt exec p \<Longrightarrow> cache p' = cache p \<Longrightarrow> calls p \<le> calls p' \<Longrightarrow>
   cache_inv fmt exec p'"
  unfolding cache_inv_def by (metis less_le_trans)

lemma cache_inv_store:
  "cache_inv fmt exec p \<Longrightarrow> cache_key fmt d = Inr key \<Longrightarrow> exec n d = Inr r \<Longrightarrow>
   n < calls p' \<Longrightarrow> calls p \<le> calls p' \<Longrightarrow> cache p' = (cache p)(key \<mapsto> r) \<Longrightarrow>
   cache_inv fmt exec p'"
  unfolding cache_inv_def
  by (metis fun_upd_apply less_le_trans option.inject)

lemma retry_loop_cache_inv:
  "cache_key fmt d = Inr key \<Longrightarrow> cache_inv fmt exec p \<Longrightarrow>
   cache_inv fmt exec (snd (retry_loop exec d key attempt p))"
proof (induction exec d key attempt p rule: retry_loop.induct)
  case (1 exec d key attempt p)
  show ?case
  proof (cases "exec (calls p) d")
    case (Inl e)
    have "cache_inv fmt exec (p\<lparr>calls := calls p + 1, metrics := bump_failed (metrics p)\<rparr>)"
      using "1.prems"(2) by (rule cache_inv_calls) simp_all
    moreover have "cache_inv fmt exec (p\<lparr>calls := calls p + 1, backoffs := backoffs p @ [2 ^ attempt]\<rparr>)"
      using "1.prems"(2) by (rule cache_inv_calls) simp_all
    ultimately show ?thesis
      using Inl "1.IH"[of e] "1.prems"
      by (subst retry_loop.simps) simp
  next
    case (Inr r)
    have a: "cache_inv fmt exec (p\<lparr>calls := calls p + 1, cache := (cache p)(key \<mapsto> r),
        metrics := bump_processed (metrics p)\<rparr>)"
      using "1.prems"(2,1) Inr by (rule cache_inv_store) simp_all
    have b: "cache_inv fmt exec (p\<lparr>calls := calls p + 1, cache := cache p,
        metrics := bump_processed (metrics p)\<rparr>)"
      using "1.prems"(2) by (rule cache_inv_calls) simp_all
    show ?thesis
      using Inr a b "1.prems" by (subst retry_loop.simps) simp
  qed
qed

lemma process_cache_inv:
  "cache_inv fmt exec p \<Longrightarrow> cache_inv fmt exec (snd (process fmt exec p d))"
  by (auto simp: process_def retry_loop_cache_inv split: sum.splits
      intro: cache_inv_calls[where p = p])

lemma apply_operation_cache_inv:
  assumes "cache_inv fmt exec p"
  shows "cache_inv fmt exec (apply_operation fmt exec p opn)"
proof (cases opn)
  case (Process d)
  with assms show ?thesis by (simp add: process_cache_inv)
next
  case ClearCache
  then show ?thesis by (simp add: clear_cache_def cache_inv_def)
next
  case GetMetrics
  with assms show ?thesis by (simp add: get_metrics_def)
qed

lemma foldl_cache_inv:
  "cache_inv fmt exec p \<Longrightarrow> cache_inv fmt exec (foldl (apply_operation fmt exec) p ops)"
  by (induction ops arbitrary: p) (simp_all add: apply_operation_cache_inv)

text \<open>
  C8.  Every entry of the cache is the result of an earlier invocation of the processing
  step that succeeded, on an input with the entry's key (\<open>cache_inv\<close>): only values
  \<open>Inr r\<close> returned by the step are stored, never a failure.  The invariant holds after
  \<open>__init__\<close>, each of \<open>process\<close>, \<open>clear_cache\<close> and \<open>get_metrics\<close> preserves it, and so it
  holds after every sequence of these calls on a new processor.
\<close>

theorem cache_holds_successful_results:
  "cache_inv fmt exec (FeatureProcessor_init cfg) \<and>
   (cache_inv fmt exec p \<longrightarrow> cache_inv fmt exec (apply_operation fmt exec p opn)) \<and>
   cache_inv fmt exec (foldl (apply_operation fmt exec) (FeatureProcessor_init cfg) ops)"
  by (simp add: foldl_cache_inv cache_inv_init apply_operation_cache_inv)

theorem cache_holds_successful_results_witness:
  "cache_inv str_pyval (execute_processing sample_clock (sample_config 2))
     (FeatureProcessor_init (sample_config 2)) \<and>
   cache_inv str_pyval (execute_processing sample_clock (sample_config 2))
     (apply_operation str_pyval (execute_processing sample_clock (sample_config 2))
        (FeatureProcessor_init (sample_config 2)) (Process sample_data)) \<and>
   cache (apply_operation str_pyval (execute_processing sample_clock (sample_config 2))
        (FeatureProcessor_init (sample_config 2)) (Process sample_data))
     ''test-123:1234567890'' = Some sample_result \<and>
   execute_processing sample_clock (sample_config 2) 0 sample_data = Inr sample_result"
proof -
  let ?exec = "execute_processing sample_clock (sample_config 2)"
  let ?p = "FeatureProcessor_init (sample_config 2)"
  have run: "cache (apply_operation str_pyval ?exec ?p (Process sample_data))
      ''test-123:1234567890'' = Some sample_result"
    by (simp add: sample_first_call)
  have ex: "?exec 0 sample_data = Inr sample_result"
    by (simp add: execute_processing_def sample_data_def sample_result_def)
  show ?thesis
    using cache_holds_successful_results [of str_pyval ?exec "sample_config 2" ?p "Process sample_data" "[]"] run ex
    by blast
qed

section \<open>Coroutines of a batch\<close>

lemma begin_attempt_config [simp]: "config (snd (begin_attempt d key a p)) = config p"
  by (simp add: begin_attempt_def)

lemma task_step_config [simp]: "config (snd (task_step fmt exec t p)) = config p"
  by (cases t) (auto split: sum.splits)

lemma task_step_remaining:
  "N = nat (max_retries (config p)) \<Longrightarrow>
   remaining N (fst (task_step fmt exec t p)) \<le> remaining N t - 1"
  by (cases t) (auto simp: begin_attempt_def split: sum.splits)

lemma remaining_0: "remaining N t = 0 \<Longrightarrow> \<exists>out. t = Done out"
  by (cases t) simp_all

lemma gathered_Some_iff:
  "gathered ts \<noteq> None \<longleftrightarrow> (\<forall>t\<in>set ts. \<exists>out. t = Done out)"
proof (induction ts)
  case (Cons t ts)
  then show ?case by (cases t) (auto split: option.splits)
qed simp

lemma gathered_length: "gathered ts = Some outs \<Longrightarrow> length outs = length ts"
  by (induction ts arbitrary: outs) (auto split: option.splits)

lemma gathered_nth:
  "gathered ts = Some outs \<Longrightarrow> i < length ts \<Longrightarrow> ts ! i = Done (outs ! i)"
proof (induction ts arbitrary: outs i)
  case (Cons t ts)
  then show ?case
    by (cases t; cases i) (auto split: option.splits)
qed simp

lemma run_schedule_length [simp]:
  "length (fst (run_schedule fmt exec sched (ts, p))) = length ts"
  by (induction sched arbitrary: ts p) (auto split: prod.splits)

lemma run_schedule_config [simp]:
  "config (snd (run_schedule fmt exec sched (ts, p))) = config p"
proof (induction sched arbitrary: ts p)
  case (Cons i sched)
  show ?case
    using Cons[of "ts[i := fst (task_step fmt exec (ts ! i) p)]" "snd (task_step fmt exec (ts ! i) p)"]
      Cons[of ts p]
    by (auto split: prod.splits)
qed simp

lemma run_schedule_completes:
  "N = nat (max_retries (config p)) \<Longrightarrow>
   \<forall>i<length ts. remaining N (ts ! i) \<le> count_list sched i \<Longrightarrow>
   gathered (fst (run_schedule fmt exec sched (ts, p))) \<noteq> None"
proof (induction sched arbitrary: ts p)
  case Nil
  then have "\<forall>t\<in>set ts. \<exists>out. t = Done out"
    by (auto simp: in_set_conv_nth dest!: remaining_0)
  then show ?case using gathered_Some_iff[of ts] by auto
next
  case (Cons j sched)
  show ?case
  proof (cases "j < length ts")
    case True
    obtain t' p' where st: "task_step fmt exec (ts ! j) p = (t', p')" by fastforce
    have cfg: "config p' = config p"
      using task_step_config[of fmt exec "ts ! j" p] st by simp
    have dec: "remaining N t' \<le> remaining N (ts ! j) - 1"
      using task_step_remaining[OF Cons.prems(1), of fmt exec "ts ! j"] st by simp
    have "\<forall>i<length (ts[j := t']). remaining N (ts[j := t'] ! i) \<le> count_list sched i"
    proof (intro allI impI)
      fix i assume i: "i < length (ts[j := t'])"
      show "remaining N (ts[j := t'] ! i) \<le> count_list sched i"
      proof (cases "i = j")
        case True
        then show ?thesis
          using dec Cons.prems(2) i by fastforce
      next
        case False
        then show ?thesis
          using Cons.prems(2) i by fastforce
      qed
    qed
    then have "gathered (fst (run_schedule fmt exec sched (ts[j := t'], p'))) \<noteq> None"
      using Cons.IH[of p' "ts[j := t']"] Cons.prems(1) cfg by simp
    then show ?thesis using True st by simp
  next
    case False
    then have "\<forall>i<length ts. remaining N (ts ! i) \<le> count_list sched i"
      using Cons.prems(2) by fastforce
    then show ?thesis
      using Cons.IH[of p ts] Cons.prems(1) False by simp
  qed
qed

text \<open>
  What holds of a batch in progress.  The facts about the invocations made so far stay
  true when further invocations are made.
\<close>

lemma failed_attempts_Nil [simp]: "failed_attempts exec lo hi d []"
  by (simp add: failed_attempts_def)

lemma failed_attempts_mono:
  "failed_attempts exec lo hi d ns \<Longrightarrow> hi \<le> hi' \<Longrightarrow> failed_attempts exec lo hi' d ns"
  by (auto simp: failed_attempts_def list_all_iff)

lemma failed_attempts_snoc:
  "failed_attempts exec lo n d ns \<Longrightarrow> lo \<le> n \<Longrightarrow> n < hi \<Longrightarrow> isl (exec n d) \<Longrightarrow>
   failed_attempts exec lo hi d (ns @ [n])"
  by (auto simp: failed_attempts_def list_all_iff sorted_wrt_append)

lemma stored_mono:
  "stored fmt exec p0 hi items key r \<Longrightarrow> hi \<le> hi' \<Longrightarrow> stored fmt exec p0 hi' items key r"
  unfolding stored_def by (meson less_le_trans)

lemma slot_ok_mono:
  assumes "slot_ok fmt exec p0 hi items d out" and "hi \<le> hi'"
  shows "slot_ok fmt exec p0 hi' items d out"
proof (cases "validate d")
  case False
  with assms show ?thesis by (simp add: slot_ok_def)
next
  case True
  show ?thesis
  proof (cases out)
    case (Inl e)
    with assms True show ?thesis
      unfolding slot_ok_def exhausted_def
      by (auto intro: failed_attempts_mono)
  next
    case (Inr r)
    with assms True show ?thesis
      unfolding slot_ok_def from_cache_def own_result_def
      by (auto intro: stored_mono) 
  qed
qed

lemma task_for_mono:
  "task_for fmt exec p0 hi items d t \<Longrightarrow> hi \<le> hi' \<Longrightarrow> task_for fmt exec p0 hi' items d t"
  by (cases t) (auto intro: slot_ok_mono failed_attempts_mono)

lemma cache_origin_initial: "cache_origin fmt exec p items p"
  by (simp add: cache_origin_def stored_def)

lemma task_step_calls: "calls p \<le> calls (snd (task_step fmt exec t p))"
  by (cases t) (auto simp: begin_attempt_def split: sum.splits)

lemma begin_attempt_task_for:
  assumes "validate d" and "cache_key fmt d = Inr key" and "config p = config p0"
    and "calls p0 \<le> calls p"
    and "int attempt < max_retries (config p0) \<or> attempt = 0"
    and "\<exists>ns. length ns = attempt \<and> failed_attempts exec (calls p0) (calls p) d ns"
  shows "task_for fmt exec p0 (calls (snd (begin_attempt d key attempt p))) items d
           (fst (begin_attempt d key attempt p))"
proof (cases "max_retries (config p) \<le> int attempt")
  case True
  with assms(3,5) have "attempt = 0" and "max_retries (config p0) \<le> 0" by auto
  then show ?thesis
    using True assms(1) by (simp add: begin_attempt_def slot_ok_def)
next
  case False
  then show ?thesis
    using assms by (simp add: begin_attempt_def)
qed

lemma task_step_task_for:
  assumes tf: "task_for fmt exec p0 (calls p) items d t"
    and cfg: "config p = config p0" and lo: "calls p0 \<le> calls p"
    and co: "cache_origin fmt exec p0 items p"
  shows "task_for fmt exec p0 (calls (snd (task_step fmt exec t p))) items d
           (fst (task_step fmt exec t p))"
proof (cases t)
  case (Pending d')
  with tf have d': "d' = d" by simp
  show ?thesis
  proof (cases "validate d")
    case False
    then show ?thesis using Pending d' by (simp add: slot_ok_def)
  next
    case True
    then obtain key where key: "cache_key fmt d = Inr key"
      using validate_cache_key by blast
    show ?thesis
    proof (cases "cache_enabled (config p) \<and> cache p key \<noteq> None")
      case hit: True
      then obtain r where r: "cache p key = Some r" by auto
      with co have "stored fmt exec p0 (calls p) items key r" by (simp add: cache_origin_def)
      then have "from_cache fmt exec p0 (calls p) items d r"
        using hit key cfg by (auto simp: from_cache_def)
      then show ?thesis
        using Pending d' True key hit r by (simp add: slot_ok_def)
    next
      case False
      have "task_for fmt exec p0 (calls (snd (begin_attempt d key 0 p))) items d
           (fst (begin_attempt d key 0 p))"
        using True key cfg lo by (intro begin_attempt_task_for) simp_all
      then show ?thesis
        using Pending d' True key False by auto
    qed
  qed
next
  case (Executing d' key attempt n)
  with tf have d': "d' = d" and v: "validate d" and key: "cache_key fmt d = Inr key"
    and att: "int attempt < max_retries (config p0)" and n: "calls p0 \<le> n" "n < calls p"
    by simp_all
  from tf Executing obtain ns where ns: "length ns = attempt"
    "failed_attempts exec (calls p0) n d ns" by auto
  show ?thesis
  proof (cases "exec n d")
    case (Inr r)
    have "own_result exec p0 (calls p) d r"
      unfolding own_result_def using ns att n Inr by blast
    then show ?thesis using Executing d' v Inr by (simp add: slot_ok_def)
  next
    case (Inl e)
    have fa: "failed_attempts exec (calls p0) (calls p) d (ns @ [n])"
      using ns(2) n Inl by (intro failed_attempts_snoc) simp_all
    show ?thesis
    proof (cases "int attempt = max_retries (config p) - 1")
      case True
      have "exhausted exec p0 (calls p) d
          (RuntimeError (''Processing failed after '' @ str_int (max_retries (config p0))
             @ '' attempts'') (Some e))"
        unfolding exhausted_def
        using att
      proof (intro conjI exI[of _ "ns @ [n]"] exI[of _ e])
        show "int (length (ns @ [n])) = max_retries (config p0)"
          using ns(1) True cfg by simp
      qed (use fa Inl in simp_all)
      then show ?thesis
        using Executing d' v Inl True cfg by (simp add: slot_ok_def)
    next
      case False
      have "\<exists>ns'. length ns' = attempt + 1 \<and> failed_attempts exec (calls p0) (calls p) d ns'"
        using fa ns(1) by (intro exI[of _ "ns @ [n]"]) simp
      then show ?thesis
        using Executing d' v key Inl False att cfg by simp
    qed
  qed
next
  case (Backoff d' key attempt)
  with tf have d': "d' = d" and v: "validate d" and key: "cache_key fmt d = Inr key"
    and att: "int attempt < max_retries (config p0) - 1"
    and ns: "\<exists>ns. length ns = attempt + 1 \<and> failed_attempts exec (calls p0) (calls p) d ns"
    by simp_all
  have "task_for fmt exec p0 (calls (snd (begin_attempt d key (attempt + 1) p))) items d
           (fst (begin_attempt d key (attempt + 1) p))"
    using v key cfg lo att ns by (intro begin_attempt_task_for) simp_all
  then show ?thesis using Backoff d' by simp
next
  case (Done out)
  with tf show ?thesis by simp
qed

lemma cache_origin_same:
  "cache_origin fmt exec p0 items p \<Longrightarrow> cache p' = cache p \<Longrightarrow> calls p \<le> calls p' \<Longrightarrow>
   cache_origin fmt exec p0 items p'"
  unfolding cache_origin_def by (auto intro: stored_mono)

lemma cache_origin_store:
  assumes "cache_origin fmt exec p0 items p" and "d \<in> set items"
    and "cache_key fmt d = Inr key" and "calls p0 \<le> n" and "n < calls p"
    and "exec n d = Inr r"
    and "cache p' = (cache p)(key \<mapsto> r)" and "calls p' = calls p"
  shows "cache_origin fmt exec p0 items p'"
  unfolding cache_origin_def
proof (intro allI impI)
  fix k r' assume c: "cache p' k = Some r'"
  show "stored fmt exec p0 (calls p') items k r'"
  proof (cases "k = key")
    case True
    with c assms(7) have "r' = r" by simp
    then show ?thesis
      unfolding stored_def using True assms(2-6,8) by auto
  next
    case False
    with c assms(7) have "cache p k = Some r'" by simp
    then show ?thesis using assms(1,8) by (simp add: cache_origin_def)
  qed
qed

lemma task_step_cache_origin:
  assumes tf: "task_for fmt exec p0 (calls p) items d t" and mem: "d \<in> set items"
    and co: "cache_origin fmt exec p0 items p"
  shows "cache_origin fmt exec p0 items (snd (task_step fmt exec t p))"
proof (cases t)
  case (Pending d')
  show ?thesis
    using Pending
    by (auto simp: begin_attempt_def split: sum.splits intro!: cache_origin_same[OF co])
next
  case (Executing d' key attempt n)
  with tf have d': "d' = d" and key: "cache_key fmt d = Inr key"
    and n: "calls p0 \<le> n" "n < calls p" by simp_all
  show ?thesis
  proof (cases "exec n d")
    case (Inl e)
    then show ?thesis
      using Executing d' by (auto intro!: cache_origin_same[OF co])
  next
    case (Inr r)
    show ?thesis
    proof (cases "cache_enabled (config p)")
      case True
      then show ?thesis
        using Executing d' Inr
        by (auto intro!: cache_origin_store[OF co mem key n Inr])
    next
      case False
      then show ?thesis
        using Executing d' Inr by (auto intro!: cache_origin_same[OF co])
    qed
  qed
next
  case (Backoff d' key attempt)
  then show ?thesis by (auto simp: begin_attempt_def intro!: cache_origin_same[OF co])
next
  case (Done out)
  then show ?thesis using co by simp
qed


lemma task_step_batch_inv:
  assumes inv: "batch_inv fmt exec p0 items ts p" and j: "j < length ts"
  shows "batch_inv fmt exec p0 items (ts[j := fst (task_step fmt exec (ts ! j) p)])
           (snd (task_step fmt exec (ts ! j) p))"
proof -
  let ?t' = "fst (task_step fmt exec (ts ! j) p)"
  let ?p' = "snd (task_step fmt exec (ts ! j) p)"
  from inv have len: "length ts = length items" and cfg: "config p = config p0"
    and lo: "calls p0 \<le> calls p" and co: "cache_origin fmt exec p0 items p"
    and tf: "\<forall>i<length items. task_for fmt exec p0 (calls p) items (items ! i) (ts ! i)"
    by (simp_all add: batch_inv_def)
  have tj: "task_for fmt exec p0 (calls p) items (items ! j) (ts ! j)"
    using tf j len by simp
  have mem: "items ! j \<in> set items"
    using j len by simp
  have up: "calls p \<le> calls ?p'" by (rule task_step_calls)
  have t': "task_for fmt exec p0 (calls ?p') items (items ! j) ?t'"
    using tj cfg lo co by (rule task_step_task_for)
  have co': "cache_origin fmt exec p0 items ?p'"
    using tj mem co by (rule task_step_cache_origin)
  have all: "\<forall>i<length items. task_for fmt exec p0 (calls ?p') items (items ! i) (ts[j := ?t'] ! i)"
  proof (intro allI impI)
    fix i assume i: "i < length items"
    show "task_for fmt exec p0 (calls ?p') items (items ! i) (ts[j := ?t'] ! i)"
    proof (cases "i = j")
      case True
      then show ?thesis using t' j by simp
    next
      case False
      then have "ts[j := ?t'] ! i = ts ! i" by simp
      then show ?thesis
        using tf i up task_for_mono[of fmt exec p0 "calls p" items "items ! i" "ts ! i" "calls ?p'"]
        by simp
    qed
  qed
  show ?thesis
    unfolding batch_inv_def using len cfg lo up co' all by simp
qed

lemma run_schedule_batch_inv:
  "batch_inv fmt exec p0 items ts p \<Longrightarrow>
   batch_inv fmt exec p0 items (fst (run_schedule fmt exec sched (ts, p)))
     (snd (run_schedule fmt exec sched (ts, p)))"
proof (induction sched arbitrary: ts p)
  case Nil
  then show ?case by simp
next
  case (Cons j sched)
  show ?case
  proof (cases "j < length ts")
    case True
    have "batch_inv fmt exec p0 items (ts[j := fst (task_step fmt exec (ts ! j) p)])
           (snd (task_step fmt exec (ts ! j) p))"
      using Cons.prems True by (rule task_step_batch_inv)
    then show ?thesis
      using Cons.IH True by (simp add: case_prod_beta)
  next
    case False
    then show ?thesis using Cons by simp
  qed
qed

lemma batch_inv_initial: "batch_inv fmt exec p items (map Pending items) p"
  by (simp add: batch_inv_def cache_origin_initial)

lemma slot_ok_result:
  assumes "slot_ok fmt exec p0 hi items d out" and "validate d"
    and "1 \<le> max_retries (config p0)"
    and "\<forall>n. calls p0 \<le> n \<and> n < hi \<longrightarrow> \<not> isl (exec n d)"
  shows "\<exists>r. out = Inr r"
proof (cases out)
  case (Inl e)
  with assms(1,2,3) have "exhausted exec p0 hi d e" by (simp add: slot_ok_def)
  then obtain ns where ns: "int (length ns) = max_retries (config p0)"
    "failed_attempts exec (calls p0) hi d ns" by (auto simp: exhausted_def)
  from ns(1) assms(3) have "ns \<noteq> []" by auto
  then have "last ns \<in> set ns" by simp
  with ns(2) have "calls p0 \<le> last ns \<and> last ns < hi \<and> isl (exec (last ns) d)"
    by (simp add: failed_attempts_def list_all_iff)
  with assms(4) show ?thesis by blast
next
  case (Inr r)
  then show ?thesis by simp
qed

lemma process_batch_no_processors:
  "processors m = [] \<Longrightarrow>
   process_batch fmt exec sched m items s =
     (Some (Inl (ValueError ''No processors available'')), s)"
  by (simp add: process_batch_def)

text \<open>
  A batch of one item, resumed until it finishes, does what \<open>process\<close> does: the states of a
  coroutine and the retry loop describe the same method.
\<close>

lemma run_schedule_append:
  "run_schedule fmt exec (xs @ ys) st = run_schedule fmt exec ys (run_schedule fmt exec xs st)"
proof (induction xs arbitrary: st)
  case Nil
  then show ?case by (cases st) simp
next
  case (Cons i xs)
  then show ?case by (cases st) (simp split: prod.splits)
qed

lemma run_single_step:
  "run_schedule fmt exec (replicate (Suc n) 0) ([t], p) =
   run_schedule fmt exec (replicate n 0) ([fst (task_step fmt exec t p)], snd (task_step fmt exec t p))"
  by (simp add: case_prod_beta)

lemma begin_attempt_runs_retry_loop:
  "\<exists>n. run_schedule fmt exec (replicate n 0)
          ([fst (begin_attempt d key attempt p)], snd (begin_attempt d key attempt p)) =
        ([Done (fst (retry_loop exec d key attempt p))], snd (retry_loop exec d key attempt p))"
proof (induction exec d key attempt p rule: retry_loop.induct)
  case (1 exec d key attempt p)
  show ?case
  proof (cases "max_retries (config p) \<le> int attempt")
    case True
    then have "run_schedule fmt exec (replicate 0 0)
          ([fst (begin_attempt d key attempt p)], snd (begin_attempt d key attempt p)) =
        ([Done (fst (retry_loop exec d key attempt p))], snd (retry_loop exec d key attempt p))"
      by (simp add: begin_attempt_def retry_loop_exhausted)
    then show ?thesis by blast
  next
    case False
    show ?thesis
    proof (cases "exec (calls p) d")
      case (Inr r)
      have "run_schedule fmt exec (replicate (Suc 0) 0)
          ([fst (begin_attempt d key attempt p)], snd (begin_attempt d key attempt p)) =
        ([Done (fst (retry_loop exec d key attempt p))], snd (retry_loop exec d key attempt p))"
        using False Inr by (simp add: begin_attempt_def retry_loop_success)
      then show ?thesis by blast
    next
      case (Inl e)
      show ?thesis
      proof (cases "int attempt = max_retries (config p) - 1")
        case True
        have "run_schedule fmt exec (replicate (Suc 0) 0)
          ([fst (begin_attempt d key attempt p)], snd (begin_attempt d key attempt p)) =
        ([Done (fst (retry_loop exec d key attempt p))], snd (retry_loop exec d key attempt p))"
          using False Inl True by (simp add: begin_attempt_def retry_loop_last_failure)
        then show ?thesis by blast
      next
        case notlast: False
        let ?q = "p\<lparr>calls := calls p + 1, backoffs := backoffs p @ [2 ^ attempt]\<rparr>"
        from "1.IH"[OF False Inl notlast] obtain n where
          n: "run_schedule fmt exec (replicate n 0)
                ([fst (begin_attempt d key (attempt + 1) ?q)],
                 snd (begin_attempt d key (attempt + 1) ?q)) =
              ([Done (fst (retry_loop exec d key (attempt + 1) ?q))],
               snd (retry_loop exec d key (attempt + 1) ?q))" by blast
        have lt: "int attempt < max_retries (config p) - 1"
          using False notlast by simp
        have "run_schedule fmt exec (replicate (Suc (Suc n)) 0)
          ([fst (begin_attempt d key attempt p)], snd (begin_attempt d key attempt p)) =
          run_schedule fmt exec (replicate n 0)
                ([fst (begin_attempt d key (attempt + 1) ?q)],
                 snd (begin_attempt d key (attempt + 1) ?q))"
          using False Inl notlast
          by (simp only: run_single_step) (simp add: begin_attempt_def)
        also have "\<dots> = ([Done (fst (retry_loop exec d key attempt p))],
            snd (retry_loop exec d key attempt p))"
          using n retry_loop_failure[of attempt p exec d e key] lt Inl by simp
        finally show ?thesis by blast
      qed
    qed
  qed
qed

lemma single_task_runs_process:
  "\<exists>n. run_schedule fmt exec (replicate (Suc n) 0) ([Pending d], p) =
        ([Done (fst (process fmt exec p d))], snd (process fmt exec p d))"
proof (cases "validate d")
  case False
  then have "run_schedule fmt exec (replicate (Suc 0) 0) ([Pending d], p) =
        ([Done (fst (process fmt exec p d))], snd (process fmt exec p d))"
    by (simp add: process_def)
  then show ?thesis by blast
next
  case True
  then obtain key where key: "cache_key fmt d = Inr key"
    using validate_cache_key by blast
  show ?thesis
  proof (cases "cache_enabled (config p) \<and> cache p key \<noteq> None")
    case hit: True
    then have "run_schedule fmt exec (replicate (Suc 0) 0) ([Pending d], p) =
        ([Done (fst (process fmt exec p d))], snd (process fmt exec p d))"
      using True key by (simp add: process_def)
    then show ?thesis by blast
  next
    case False
    have step: "task_step fmt exec (Pending d) p = begin_attempt d key 0 p"
      using True key False by auto
    have "\<not> cache_hit fmt p d"
      using key False by (simp add: cache_hit_def)
    then have pr: "process fmt exec p d = retry_loop exec d key 0 p"
      using True key by (simp add: process_miss)
    from begin_attempt_runs_retry_loop[of fmt exec d key 0 p] obtain n where
      "run_schedule fmt exec (replicate n 0)
          ([fst (begin_attempt d key 0 p)], snd (begin_attempt d key 0 p)) =
        ([Done (fst (retry_loop exec d key 0 p))], snd (retry_loop exec d key 0 p))" by blast
    then have "run_schedule fmt exec (replicate (Suc n) 0) ([Pending d], p) =
        ([Done (fst (process fmt exec p d))], snd (process fmt exec p d))"
      by (simp only: run_single_step step pr)
    then show ?thesis by blast
  qed
qed

section \<open>The sample batch\<close>

lemma sample_invalid: "\<not> validate invalid_data"
  by (simp add: validate_iff invalid_data_def)

lemma round_robin_3_5: "round_robin 3 5 = [0,1,2,0,1,2,0,1,2,0,1,2,0,1,2]"
  by (simp add: round_robin_def upt_rec numeral_eq_Suc)

lemma sample_exec_0: "sample_exec n sample_data =
   Inr \<lparr>success = True, data = PStr ''value'', processed_at = sample_clock n, r_config = []\<rparr>"
  by (simp add: sample_exec_def execute_processing_def sample_data_def)

lemma sample_processors: "processors sample_manager = [0, 1]"
  by (simp add: sample_manager_def add_processor_def FeatureManager_init_def)

lemma failing_valid: "validate failing_data"
  by (simp add: validate_iff failing_data_def)

lemma failing_key: "cache_key str_pyval failing_data = Inr ''test-456:1234567890''"
  by (simp add: cache_key_def failing_data_def str_int_def)

lemma flaky_exec_simps:
  "flaky_exec n sample_data =
     Inr \<lparr>success = True, data = PStr ''value'', processed_at = sample_clock n, r_config = []\<rparr>"
  "flaky_exec n failing_data = Inl (Exception ''boom'')"
  by (simp_all add: flaky_exec_def sample_exec_def execute_processing_def sample_data_def
      failing_data_def)

lemma mixed_batch_run:
  "run_schedule str_pyval flaky_exec (round_robin 3 5) (map Pending mixed_items, sample_store 0) =
   ([Done (Inr \<lparr>success = True, data = PStr ''value'', processed_at = sample_clock 0, r_config = []\<rparr>),
     Done (Inl (RuntimeError ''Processing failed after 1 attempts'' (Some (Exception ''boom'')))),
     Done (Inl (ValueError ''Invalid input data structure''))],
    (sample_store 0)
      \<lparr>calls := 2, cache := [''test-123:1234567890'' \<mapsto>
          \<lparr>success = True, data = PStr ''value'', processed_at = sample_clock 0, r_config = []\<rparr>],
       metrics := \<lparr>processed = 1, failed = 1, cache_hits = 0\<rparr>\<rparr>)"
  by (simp add: mixed_items_def round_robin_3_5 sample_store_def sample_valid sample_invalid
      sample_key failing_valid failing_key begin_attempt_def flaky_exec_simps bump_processed_def
      bump_failed_def str_int_def FeatureProcessor_init_def)

lemma mixed_batch_result:
  "fst (process_batch str_pyval flaky_exec (round_robin 3 5) sample_manager mixed_items
          sample_store) =
   Some (Inr [Inr \<lparr>success = True, data = PStr ''value'', processed_at = sample_clock 0, r_config = []\<rparr>,
              Inl (RuntimeError ''Processing failed after 1 attempts'' (Some (Exception ''boom''))),
              Inl (ValueError ''Invalid input data structure'')])"
  by (simp add: process_batch_def sample_processors mixed_batch_run)

lemma mixed_batch_calls:
  "calls (snd (process_batch str_pyval flaky_exec (round_robin 3 5) sample_manager mixed_items
          sample_store) 0) = 2"
  by (simp add: process_batch_def sample_processors mixed_batch_run)

lemma mixed_fair: "\<forall>i<length mixed_items.
    2 * nat (max_retries (config (sample_store 0))) + 3 \<le> count_list (round_robin 3 5) i"
  by (simp only: round_robin_3_5) (simp add: mixed_items_def sample_store_def less_Suc_eq numeral_eq_Suc)

section \<open>The slots of a batch\<close>




section \<open>The processor of a batch\<close>

lemma add_processors: "processors (foldl add_processor m xs) = processors m @ xs"
  by (induction xs arbitrary: m) (simp_all add: add_processor_def)

text \<open>
  C9.  A manager to which the processors \<open>a\<close>, then \<open>as\<close> were added holds them in this
  order.  For every manager whose first processor is \<open>a\<close>, every batch, and every order of
  resumption: all coroutines of the batch run on the object \<open>a\<close>, and every other object
  of the store is after the batch exactly what it was before: its cache, its counters and
  the count of the invocations of its processing step.
\<close>

theorem batch_uses_first_processor:
  "processors (foldl add_processor FeatureManager_init (a # as)) = a # as \<and>
   (processors m = a # as \<longrightarrow>
      process_batch fmt exec sched m items s =
        (map_option Inr (gathered (fst (run_schedule fmt exec sched (map Pending items, s a)))),
         s(a := snd (run_schedule fmt exec sched (map Pending items, s a)))) \<and>
      (\<forall>b. b \<noteq> a \<longrightarrow> snd (process_batch fmt exec sched m items s) b = s b))"
  by (simp add: add_processors FeatureManager_init_def add_processor_def process_batch_def
      case_prod_beta)

theorem batch_uses_first_processor_witness:
  "processors (foldl add_processor FeatureManager_init [0, 1]) = [0, 1] \<and>
   processors sample_manager = [0, 1] \<and>
   snd (process_batch str_pyval sample_exec (round_robin 3 5) sample_manager sample_items
          sample_store) 1 = sample_store 1 \<and>
   metrics (snd (process_batch str_pyval sample_exec (round_robin 3 5) sample_manager sample_items
          sample_store) 0) = \<lparr>processed = 2, failed = 0, cache_hits = 0\<rparr>"
proof -
  have m: "metrics (snd (run_schedule str_pyval sample_exec (round_robin 3 5)
       (map Pending sample_items, sample_store 0))) = \<lparr>processed = 2, failed = 0, cache_hits = 0\<rparr>"
    by (simp add: sample_items_def round_robin_3_5 sample_store_def sample_valid sample_invalid sample_key
      begin_attempt_def sample_exec_0 bump_processed_def)
  show ?thesis
    using batch_uses_first_processor [of 0 "[1]" sample_manager str_pyval sample_exec "round_robin 3 5" sample_items
        sample_store] sample_processors m
    by simp
qed

end
